theory Spec2Isabelle
  imports Main "HOL-Library.Sublist"
begin

section \<open>The build-info command line tool (bin/build-info.js)\<close>

text \<open>
  A shallow embedding of \<^verbatim>\<open>bin/build-info.js\<close>. The script reads its arguments,
  asks git for the user name and the short commit hash, reads the version of the host
  project's manifest and the clock, and writes a TypeScript constant to
  \<^verbatim>\<open><cwd>/src/build.ts\<close>.

  A JavaScript string is modelled by \<open>string\<close>: the bytes of its UTF-8 form, which
  are the bytes that reach the output file. Every operation of the script on strings
  (comparison, \<^verbatim>\<open>replace\<close>, \<^verbatim>\<open>JSON.stringify\<close>, the regular expression of the
  key rewriting) singles out ASCII characters only and copies every other code unit, so
  it acts on the UTF-8 bytes as it acts on the code units of a well-formed string.

  What the script does to the outside world is recorded as a list of events, in the order
  in which they happen; what the outside world answers is read from an environment.
\<close>

subsection \<open>Values, objects, events and the environment\<close>

text \<open>A property value of the build object is a string or \<^verbatim>\<open>undefined\<close> (\<open>None\<close>).\<close>

type_synonym js_value = "string option"

text \<open>An object: its own properties in insertion order.\<close>

type_synonym js_object = "(string \<times> js_value) list"

text \<open>
  The assignment \<^verbatim>\<open>obj.k = v\<close>: an existing property keeps its place, a new one goes
  last. The property exists afterwards also when \<open>v\<close> is \<^verbatim>\<open>undefined\<close>.
\<close>

fun set_prop :: "string \<Rightarrow> js_value \<Rightarrow> js_object \<Rightarrow> js_object" where
  "set_prop k v [] = [(k, v)]"
| "set_prop k v ((k', v') # ps) =
     (if k' = k then (k, v) # ps else (k', v') # set_prop k v ps)"

text \<open>The four logging calls of signale that the script uses.\<close>

datatype severity = Start | Info | Success | Error

datatype event =
    Log severity string
  | LogObject severity js_object
  | Exec string
  | WriteFile string string

text \<open>
  What can be thrown: the string of line 57, and the rejection of the promise of
  \<^verbatim>\<open>exec\<close>.
\<close>

datatype error = InvalidArgument string | ExecError string

text \<open>
  The promisified \<^verbatim>\<open>child_process.exec\<close> resolves with the two output channels when
  the command exits with code 0, and rejects otherwise (the command is missing, or it
  exits with another code).
\<close>

datatype exec_result = Resolved string string | Rejected string

text \<open>
  The collaborators of one run: the working directory, the \<^verbatim>\<open>version\<close> of the
  manifest loaded at line 15, the answer of the shell to a command, the text that
  \<^verbatim>\<open>moment().format("MMMM DD, YYYY HH:mm:ss")\<close> returns, and whether
  \<^verbatim>\<open>fs.writeFile\<close> of a text to a path is fulfilled.
\<close>

record env =
  cwd :: string
  package_version :: js_value
  exec :: "string \<Rightarrow> exec_result"
  moment_format :: string
  writeFile :: "string \<Rightarrow> string \<Rightarrow> bool"

text \<open>
  A computation yields the events it caused and either the thrown error or its value.
  \<open>and_then\<close> is sequencing (\<^verbatim>\<open>await\<close>): an error skips what follows.
\<close>

type_synonym 'a run = "event list \<times> (error + 'a)"

definition and_then :: "'a run \<Rightarrow> ('a \<Rightarrow> 'b run) \<Rightarrow> 'b run" where
  "and_then m f =
     (case m of
        (t, Inl err) \<Rightarrow> (t, Inl err)
      | (t, Inr x) \<Rightarrow> (case f x of (t', r) \<Rightarrow> (t @ t', r)))"

subsection \<open>Lines 17 to 49: the options and the two git queries\<close>

definition opts :: "string list" where
  "opts = [''--help'', ''--init'', ''--no-hash'', ''--no-user'', ''--no-version'', ''--no-time'']"

text \<open>
  \<^verbatim>\<open>s.replace(pat, rep)\<close> with a string pattern: the first occurrence of \<open>pat\<close> is
  replaced, later ones stay (\<open>rep\<close> is taken literally: here it is empty).
\<close>

fun replace_first :: "string \<Rightarrow> string \<Rightarrow> string \<Rightarrow> string" where
  "replace_first pat rep [] = (if pat = [] then rep else [])"
| "replace_first pat rep (c # cs) =
     (if prefix pat (c # cs) then rep @ drop (length pat) (c # cs)
      else c # replace_first pat rep cs)"

definition getGitUser :: "env \<Rightarrow> js_value run" where
  "getGitUser e =
     (case exec e ''git config user.name'' of
        Rejected err \<Rightarrow> ([Exec ''git config user.name''], Inl (ExecError err))
      | Resolved stdout stderr \<Rightarrow>
          if stderr \<noteq> []
          then ([Exec ''git config user.name'',
                 Log Error ''Error getting git user, skipping...''], Inr None)
          else ([Exec ''git config user.name'',
                 Log Success (''Found git user: '' @ replace_first ''\<newline>'' [] stdout)],
                Inr (Some (replace_first ''\<newline>'' [] stdout))))"

definition getCommitHash :: "env \<Rightarrow> js_value run" where
  "getCommitHash e =
     (case exec e ''git rev-parse --short HEAD'' of
        Rejected err \<Rightarrow> ([Exec ''git rev-parse --short HEAD''], Inl (ExecError err))
      | Resolved stdout stderr \<Rightarrow>
          if stderr \<noteq> []
          then ([Exec ''git rev-parse --short HEAD'',
                 Log Error ''Error getting latest commit hash, skipping...''], Inr None)
          else ([Exec ''git rev-parse --short HEAD'',
                 Log Success (''Found commit hash: '' @ replace_first ''\<newline>'' [] stdout)],
                Inr (Some (replace_first ''\<newline>'' [] stdout))))"

subsection \<open>Lines 52 to 80: checking the arguments and collecting the build object\<close>

definition unknown_arg :: "string \<Rightarrow> string" where
  "unknown_arg arg =
     ''Error: Unknown arg \"'' @ arg @
     ''\", please re-check arguments before running the tool again!''"

text \<open>Lines 55 to 59: the first argument that is not an option is thrown.\<close>

fun check_args :: "string list \<Rightarrow> error + unit" where
  "check_args [] = Inr ()"
| "check_args (arg # rest) =
     (if arg \<in> set opts then check_args rest
      else Inl (InvalidArgument (unknown_arg arg)))"

definition collect :: "env \<Rightarrow> string list \<Rightarrow> js_object run" where
  "collect e args =
     and_then ([Log Start ''Collecting build information...''], check_args args) (\<lambda>_.
     and_then (if ''--no-hash'' \<notin> set args
               then and_then (getCommitHash e) (\<lambda>v. ([], Inr (set_prop ''hash'' v [])))
               else ([], Inr [])) (\<lambda>b1.
     and_then (if ''--no-user'' \<notin> set args
               then and_then (getGitUser e) (\<lambda>v. ([], Inr (set_prop ''user'' v b1)))
               else ([], Inr b1)) (\<lambda>b2.
     let b3 = (if ''--no-version'' \<notin> set args
               then set_prop ''version'' (package_version e) b2 else b2);
         b4 = (if ''--no-time'' \<notin> set args
               then set_prop ''timestamp'' (Some (moment_format e)) b3 else b3)
     in ([LogObject Info b4], Inr b4))))"

subsection \<open>Lines 87 to 93: the text of the file\<close>

abbreviation DQ :: char where "DQ \<equiv> CHR 0x22"

abbreviation BSL :: char where "BSL \<equiv> CHR 0x5C"

definition hex_digit :: "nat \<Rightarrow> char" where
  "hex_digit n = ''0123456789abcdef'' ! (n mod 16)"

text \<open>
  \<^verbatim>\<open>JSON.stringify\<close> of a string (QuoteJSONString of ECMAScript): the quote, the
  backslash and the control characters are escaped, everything else is copied.
\<close>

definition escape_char :: "char \<Rightarrow> string" where
  "escape_char c =
     (if c = CHR 0x08 then [BSL, CHR ''b'']
      else if c = CHR 0x09 then [BSL, CHR ''t'']
      else if c = CHR 0x0A then [BSL, CHR ''n'']
      else if c = CHR 0x0C then [BSL, CHR ''f'']
      else if c = CHR 0x0D then [BSL, CHR ''r'']
      else if c = DQ then [BSL, DQ]
      else if c = BSL then [BSL, BSL]
      else if (of_char c :: nat) < 0x20
      then [BSL, CHR ''u'', CHR ''0'', CHR ''0'',
            hex_digit (of_char c div 16), hex_digit (of_char c mod 16)]
      else [c])"

definition json_quote :: "string \<Rightarrow> string" where
  "json_quote s = DQ # concat (map escape_char s) @ [DQ]"

text \<open>
  \<^verbatim>\<open>JSON.stringify(obj, null, 4)\<close> of an object whose values are strings or
  \<^verbatim>\<open>undefined\<close> (SerializeJSONObject of ECMAScript): a property whose value is
  \<^verbatim>\<open>undefined\<close> yields no member; the members are joined by a comma and a line
  break, each behind the gap of four spaces; an object without members is \<^verbatim>\<open>{}\<close>.
\<close>

fun json_members :: "js_object \<Rightarrow> string list" where
  "json_members [] = []"
| "json_members ((k, None) # ps) = json_members ps"
| "json_members ((k, Some v) # ps) =
     (json_quote k @ '': '' @ json_quote v) # json_members ps"

fun join :: "string \<Rightarrow> string list \<Rightarrow> string" where
  "join sep [] = []"
| "join sep [x] = x"
| "join sep (x # y # ys) = x @ sep @ join sep (y # ys)"

definition JSON_stringify :: "js_object \<Rightarrow> string" where
  "JSON_stringify obj =
     (if json_members obj = [] then ''{}''
      else ''{\<newline>    '' @ join '',\<newline>    '' (json_members obj) @ ''\<newline>}'')"

text \<open>
  The regular expression of line 91, \<^verbatim>\<open>/\"([^(\")"]+)\":/g\<close>: a quote, one or more
  characters of the class, a quote and a colon. The class is negated and lists the
  opening parenthesis, the quote and the closing parenthesis.
\<close>

definition in_class :: "char \<Rightarrow> bool" where
  "in_class c = (c \<noteq> CHR ''('' \<and> c \<noteq> DQ \<and> c \<noteq> CHR '')'')"

text \<open>
  \<open>match_tail acc s\<close>: the end of the pattern, a quote and a colon, at the start of
  \<open>s\<close>; yields the captured group and the text behind the match.
\<close>

fun match_tail :: "string \<Rightarrow> string \<Rightarrow> (string \<times> string) option" where
  "match_tail acc (a # b # rest) =
     (if a = DQ \<and> b = CHR '':'' then Some (acc, rest) else None)"
| "match_tail acc s = None"

text \<open>
  \<open>match_group acc s\<close>: the group \<^verbatim>\<open>[^(\")"]+\<close> and the end of the pattern at the
  start of \<open>s\<close>, with \<open>acc\<close> captured so far. The quantifier is greedy: after a
  character of the class the matcher first tries to take more of them, and tries the
  end of the pattern here only when that fails.
\<close>

fun match_group :: "string \<Rightarrow> string \<Rightarrow> (string \<times> string) option" where
  "match_group acc [] = None"
| "match_group acc (c # cs) =
     (if in_class c
      then (case match_group (acc @ [c]) cs of
              Some r \<Rightarrow> Some r
            | None \<Rightarrow> match_tail (acc @ [c]) cs)
      else None)"

text \<open>
  \<^verbatim>\<open>.replace(/\"([^(\")"]+)\":/g, "$1:")\<close>: the text is scanned from the left; a match
  is replaced by its group and a colon and the scan goes on behind the match; where
  nothing matches, the character is copied.
\<close>

function unquote_keys :: "string \<Rightarrow> string" where
  "unquote_keys [] = []"
| "unquote_keys (c # cs) =
     (if c = DQ
      then (case match_group [] cs of
              Some (cap, rest) \<Rightarrow> cap @ '':'' @ unquote_keys rest
            | None \<Rightarrow> c # unquote_keys cs)
      else c # unquote_keys cs)"
  by pat_completeness auto
termination
proof (relation "measure length")
  have tail: "match_tail acc s = Some (cap, rest) \<Longrightarrow> length rest < length s"
    for acc s cap rest
    by (induction acc s rule: match_tail.induct) (auto split: if_splits)
  have "match_group acc s = Some (cap, rest) \<Longrightarrow> length rest < length s"
    for acc s cap rest
  proof (induction acc s rule: match_group.induct)
    case (1 acc)
    then show ?case by simp
  next
    case (2 acc c cs)
    show ?case
    proof (cases "match_group (acc @ [c]) cs")
      case None
      with "2.prems" have "match_tail (acc @ [c]) cs = Some (cap, rest)"
        by (simp split: if_splits)
      then show ?thesis using tail by fastforce
    next
      case (Some r)
      with "2.prems" have "in_class c" and "match_group (acc @ [c]) cs = Some (cap, rest)"
        by (simp_all split: if_splits)
      with "2.IH" show ?thesis by fastforce
    qed
  qed
  then show "\<And>c cs x2 x y. c = DQ \<Longrightarrow> match_group [] cs = Some x2 \<Longrightarrow>
      (x, y) = x2 \<Longrightarrow> (y, c # cs) \<in> measure length"
    by fastforce
qed simp_all

text \<open>
  The comment of lines 89 and 125, and the text handed to \<^verbatim>\<open>fs.writeFile\<close> (lines
  89 to 92 and 125 to 128).
\<close>

definition header :: string where
  "header =
     ''// Angular build information, automatically generated by `angular-build-info`\<newline>''"

definition file_text :: "js_object \<Rightarrow> string" where
  "file_text obj =
     header @ ''export const buildInfo = '' @ unquote_keys (JSON_stringify obj) @ '';\<newline>''"

subsection \<open>Lines 83 to 97: writing the file\<close>

definition exportPath :: "env \<Rightarrow> string" where
  "exportPath e = cwd e @ ''/src/build.ts''"

definition save :: "env \<Rightarrow> js_object \<Rightarrow> unit run" where
  "save e obj =
     (if writeFile e (exportPath e) (file_text obj)
      then ([WriteFile (exportPath e) (file_text obj),
             Log Success (''Saved build information to `'' @ exportPath e @ ''`'')], Inr ())
      else ([WriteFile (exportPath e) (file_text obj),
             Log Error (''An error occured writing to `'' @ exportPath e @
                        ''`, does the path exist?'')], Inr ()))"

definition buildInfo :: "env \<Rightarrow> string list \<Rightarrow> unit run" where
  "buildInfo e args = and_then (collect e args) (save e)"

subsection \<open>Lines 100 to 168: the template, the manual and the choice of the mode\<close>

definition template :: "env \<Rightarrow> js_object" where
  "template e =
     [(''user'', Some ''Octocat''), (''hash'', Some ''1e872b5''),
      (''version'', Some ''1.0.0''), (''timestamp'', Some (moment_format e))]"

definition init :: "env \<Rightarrow> unit run" where
  "init e =
     ([Log Info ''Welcome to `angular-build-info`!'',
       Log Info (''We will now create a boilerplate `build.ts` file in `'' @ exportPath e @
         ''` and fill it with basic information so you can start implementing it in your front-end.''),
       Log Info ''If you wish for more info on how to implement the provided info in your Angular app, feel free to check out the main repo over at https://github.com/4dams/angular-build-info'',
       Log Start ''Creating `build.ts` file...''] @
      (if writeFile e (exportPath e) (file_text (template e))
       then [WriteFile (exportPath e) (file_text (template e)),
             Log Success ''Successfully created `build.ts` file!'',
             Log Info ''You should now modify your build/deploy scripts in your `package.json` file to run this script every time before your Angular app is built. An example would be:'',
             Log Info ''[...] \"build\": \"build-info && ng build --prod\", [...]'',
             Log Info ''Again, you can find more info on implementing this tool on the main repo.'']
       else [WriteFile (exportPath e) (file_text (template e)),
             Log Error (''An error occured writing to `'' @ exportPath e @
                        ''`, does the path exist?'')]),
      Inr ())"

text \<open>
  Line 149 of the source holds a no-break space (the bytes C2 A0) before \<^verbatim>\<open>Will\<close>.
\<close>

definition displayManual :: "unit run" where
  "displayManual =
     ([Log Info ''Welcome to `angular-build-info`!'',
       Log Info [],
       Log Info ''--help          Displays this message'',
       Log Info ''--init          Creates template `build.ts` file so you can start implementing it'',
       Log Info ''--no-hash       Will not add latest commit hash to final `build.ts`'',
       Log Info ''--no-user       Will not add git username to final `build.ts`'',
       Log Info (''--no-version   '' @ [CHR 0xC2, CHR 0xA0] @
                 ''Will not add version from `package.json` to `build.ts`''),
       Log Info ''--no-time       Will not add timestamp to final `build.ts`''],
      Inr ())"

definition start :: "env \<Rightarrow> string list \<Rightarrow> unit run" where
  "start e args =
     (if ''--init'' \<in> set args then init e
      else if ''--help'' \<in> set args then displayManual
      else buildInfo e args)"

subsection \<open>Notions used in the statements\<close>

text \<open>Events by kind: a call of \<^verbatim>\<open>fs.writeFile\<close>, a call of \<^verbatim>\<open>exec\<close>.\<close>

fun is_write :: "event \<Rightarrow> bool" where
  "is_write (WriteFile p txt) = True"
| "is_write ev = False"

fun is_exec :: "event \<Rightarrow> bool" where
  "is_exec (Exec cmd) = True"
| "is_exec ev = False"

text \<open>A text starts with a colon; a text holds a quote immediately followed by a colon.\<close>

definition starts_colon :: "string \<Rightarrow> bool" where
  "starts_colon s = (case s of [] \<Rightarrow> False | c # _ \<Rightarrow> c = CHR '':'')"

fun quote_colon :: "string \<Rightarrow> bool" where
  "quote_colon (a # b # rest) = ((a = DQ \<and> b = CHR '':'') \<or> quote_colon (b # rest))"
| "quote_colon s = False"

text \<open>
  A key that \<^verbatim>\<open>JSON.stringify\<close> copies between its quotes and that the regular
  expression of line 91 captures whole: not empty, free of parentheses and quotes, not
  starting with a colon, and without a character that is escaped.
\<close>

definition plain_key :: "string \<Rightarrow> bool" where
  "plain_key k = (k \<noteq> [] \<and> list_all in_class k \<and> \<not> starts_colon k \<and>
     concat (map escape_char k) = k)"

text \<open>The properties of an object whose value is a string, in order.\<close>

fun defined_fields :: "js_object \<Rightarrow> (string \<times> string) list" where
  "defined_fields [] = []"
| "defined_fields ((k, None) # ps) = defined_fields ps"
| "defined_fields ((k, Some v) # ps) = (k, v) # defined_fields ps"

text \<open>
  The layout that the specification describes for the record literal: one line for each
  field, indented by four spaces, the bare key, a colon, a space and the value; the lines
  in the order of the fields, separated by commas, between braces. The value is what
  line 91 makes of the quoted string; \<open>unquote_json_quote\<close> below says when that is
  the quoted string itself.
\<close>

definition member_text :: "string \<times> string \<Rightarrow> string" where
  "member_text f = fst f @ '': '' @ unquote_keys (json_quote (snd f))"

definition layout :: "js_object \<Rightarrow> string" where
  "layout obj =
     (if defined_fields obj = [] then ''{}''
      else ''{\<newline>'' @
           join '',\<newline>'' (map (\<lambda>f. ''    '' @ member_text f) (defined_fields obj)) @
           ''\<newline>}'')"

text \<open>
  An environment for the examples: the answers of the two git queries and of
  \<^verbatim>\<open>fs.writeFile\<close> are given, the rest is fixed.
\<close>

definition example_env :: "exec_result \<Rightarrow> exec_result \<Rightarrow> bool \<Rightarrow> env" where
  "example_env user_answer hash_answer write_ok =
     \<lparr>cwd = ''/project'',
      package_version = Some ''2.3.1'',
      exec = (\<lambda>cmd. if cmd = ''git config user.name'' then user_answer
                    else if cmd = ''git rev-parse --short HEAD'' then hash_answer
                    else Rejected ''command not found''),
      moment_format = ''November 03, 2026 06:01:00'',
      writeFile = (\<lambda>path txt. write_ok)\<rparr>"

section \<open>Auxiliary facts\<close>

subsection \<open>The regular expression\<close>

text \<open>
  A key between quotes, followed by a colon, is matched whole; the text behind a match
  is a proper part of the text; a match stays a match when text is appended.
\<close>

lemma match_group_key:
  "k \<noteq> [] \<Longrightarrow> list_all in_class k \<Longrightarrow>
   match_group acc (k @ DQ # CHR '':'' # t) = Some (acc @ k, t)"
proof (induction k arbitrary: acc)
  case Nil
  then show ?case by simp
next
  case (Cons c k)
  show ?case
  proof (cases k)
    case Nil
    with Cons.prems show ?thesis by (simp add: in_class_def)
  next
    case (Cons c' k')
    with Cons.prems Cons.IH [of "acc @ [c]"] show ?thesis by simp
  qed
qed

lemma match_group_suffix:
  "match_group acc s = Some (cap, rest) \<Longrightarrow> \<exists>run. s = run @ DQ # CHR '':'' # rest"
proof (induction acc s rule: match_group.induct)
  case (1 acc)
  then show ?case by simp
next
  case (2 acc c cs)
  show ?case
  proof (cases "match_group (acc @ [c]) cs")
    case None
    with "2.prems" have "match_tail (acc @ [c]) cs = Some (cap, rest)"
      by (simp split: if_splits)
    then have "cs = DQ # CHR '':'' # rest"
      by (cases "(acc @ [c], cs)" rule: match_tail.cases) (auto split: if_splits)
    then have "c # cs = [c] @ DQ # CHR '':'' # rest" by simp
    then show ?thesis by blast
  next
    case (Some r)
    with "2.prems" have "in_class c" and "match_group (acc @ [c]) cs = Some (cap, rest)"
      by (simp_all split: if_splits)
    with "2.IH" obtain run where "cs = run @ DQ # CHR '':'' # rest" by blast
    then have "c # cs = (c # run) @ DQ # CHR '':'' # rest" by simp
    then show ?thesis by blast
  qed
qed

lemma match_group_append:
  "match_group acc s = Some (cap, rest) \<Longrightarrow> match_group acc (s @ u) = Some (cap, rest @ u)"
proof (induction acc s rule: match_group.induct)
  case (1 acc)
  then show ?case by simp
next
  case (2 acc c cs)
  show ?case
  proof (cases "match_group (acc @ [c]) cs")
    case None
    with "2.prems" have c: "in_class c" and "match_tail (acc @ [c]) cs = Some (cap, rest)"
      by (simp_all split: if_splits)
    then have cs: "cs = DQ # CHR '':'' # rest" and cap: "cap = acc @ [c]"
      by (cases "(acc @ [c], cs)" rule: match_tail.cases; auto split: if_splits)+
    show ?thesis using c by (simp add: cs cap in_class_def)
  next
    case (Some r)
    with "2.prems" have "in_class c" and "match_group (acc @ [c]) cs = Some (cap, rest)"
      by (simp_all split: if_splits)
    with "2.IH" show ?thesis by simp
  qed
qed

text \<open>
  At a closing quote the scan can be cut in two: when nothing matches at the start of
  \<open>t\<close> and \<open>t\<close> does not start with a colon, the text before the quote and the text
  behind it are rewritten apart.
\<close>

lemma match_group_closing:
  "match_group acc (s @ [DQ]) = None \<Longrightarrow> \<not> starts_colon u \<Longrightarrow>
   match_group acc (s @ DQ # u) = None"
proof (induction s arbitrary: acc)
  case Nil
  then show ?case by (simp add: in_class_def)
next
  case (Cons c s)
  show ?case
  proof (cases "in_class c")
    case False
    then show ?thesis by simp
  next
    case True
    with Cons.prems have n: "match_group (acc @ [c]) (s @ [DQ]) = None"
      and t: "match_tail (acc @ [c]) (s @ [DQ]) = None"
      by (simp_all split: option.splits)
    from n Cons.prems(2) have "match_group (acc @ [c]) (s @ DQ # u) = None"
      by (rule Cons.IH)
    moreover have "match_tail (acc @ [c]) (s @ DQ # u) = None"
    proof (cases s)
      case Nil
      with Cons.prems show ?thesis by (cases u) (simp_all add: starts_colon_def)
    next
      case (Cons a s')
      with t show ?thesis by (cases s') (simp_all split: if_splits)
    qed
    ultimately show ?thesis using True by simp
  qed
qed

lemma match_group_snoc:
  assumes "match_group acc (cs @ [DQ]) = Some (cap, rest)"
  shows "\<exists>rest'. rest = rest' @ [DQ] \<and> length rest' < length cs"
proof -
  from assms obtain run where run: "cs @ [DQ] = run @ DQ # CHR '':'' # rest"
    using match_group_suffix by blast
  show ?thesis
  proof (cases rest rule: rev_cases)
    case Nil
    with run have "cs @ [DQ] = (run @ [DQ]) @ [CHR '':'']" by simp
    then have "DQ = CHR '':''" by (simp only: append1_eq_conv)
    then show ?thesis by simp
  next
    case (snoc ys y)
    with run have "cs @ [DQ] = (run @ DQ # CHR '':'' # ys) @ [y]" by simp
    then have "cs = run @ DQ # CHR '':'' # ys" and "y = DQ" by (simp_all only: append1_eq_conv)
    with snoc show ?thesis by simp
  qed
qed

lemma unquote_keys_closing:
  assumes "match_group [] t = None" and "\<not> starts_colon t"
  shows "unquote_keys (s @ DQ # t) = unquote_keys (s @ [DQ]) @ unquote_keys t"
proof (induction s rule: length_induct)
  case (1 s)
  show ?case
  proof (cases s)
    case Nil
    with assms show ?thesis by simp
  next
    case (Cons c cs)
    show ?thesis
    proof (cases "c = DQ")
      case False
      with Cons 1 show ?thesis by simp
    next
      case True
      show ?thesis
      proof (cases "match_group [] (cs @ [DQ])")
        case None
        from None assms(2) have "match_group [] (cs @ DQ # t) = None"
          by (rule match_group_closing)
        with None True Cons 1 show ?thesis by simp
      next
        case (Some r)
        obtain cap rest where r: "r = (cap, rest)" by (cases r)
        from Some r have "match_group [] (cs @ [DQ]) = Some (cap, rest)" by simp
        then have "\<exists>rest'. rest = rest' @ [DQ] \<and> length rest' < length cs"
          by (rule match_group_snoc)
        then obtain rest' where rest': "rest = rest' @ [DQ]" and "length rest' < length cs"
          by blast
        then have "length rest' < length s" using Cons by simp
        with 1 have ih: "unquote_keys (rest' @ DQ # t) = unquote_keys (rest' @ [DQ]) @ unquote_keys t"
          by blast
        from Some r have "match_group [] ((cs @ [DQ]) @ t) = Some (cap, rest @ t)"
          using match_group_append by blast
        then have "match_group [] (cs @ DQ # t) = Some (cap, rest' @ DQ # t)"
          by (simp add: rest')
        with Some r rest' ih True Cons show ?thesis by simp
      qed
    qed
  qed
qed

lemma unquote_keys_no_quote: "DQ \<notin> set s \<Longrightarrow> unquote_keys (s @ t) = s @ unquote_keys t"
  by (induction s) auto

lemma unquote_keys_key:
  "k \<noteq> [] \<Longrightarrow> list_all in_class k \<Longrightarrow>
   unquote_keys (DQ # k @ DQ # CHR '':'' # t) = k @ CHR '':'' # unquote_keys t"
  by (simp add: match_group_key)

lemma match_group_before_quote:
  "list_all in_class p \<Longrightarrow> \<not> starts_colon r \<Longrightarrow> match_group acc (p @ DQ # r) = None"
proof (induction p arbitrary: acc)
  case Nil
  then show ?case by (simp add: in_class_def)
next
  case (Cons c p)
  then have "match_group (acc @ [c]) (p @ DQ # r) = None" by simp
  moreover have "match_tail (acc @ [c]) (p @ DQ # r) = None"
  proof (cases p)
    case Nil
    with Cons.prems show ?thesis by (cases r) (simp_all add: starts_colon_def)
  next
    case (Cons a p')
    with Cons.prems show ?thesis by (cases p') (simp_all add: in_class_def)
  qed
  ultimately show ?case using Cons.prems by simp
qed

subsection \<open>Values that the rewriting leaves as they are\<close>

text \<open>
  A match ends with a quote and a colon. A value without a quote immediately followed
  by a colon has none in its quoted form either (the opening quote aside, where no match
  ends), so line 91 leaves the quoted value as it is.
\<close>

lemma quote_colon_Cons: "quote_colon s \<Longrightarrow> quote_colon (c # s)"
  by (cases s) simp_all

lemma match_group_no_quote_colon: "\<not> quote_colon s \<Longrightarrow> match_group acc s = None"
proof (induction acc s rule: match_group.induct)
  case (1 acc)
  show ?case by simp
next
  case (2 acc c cs)
  from "2.prems" have cs: "\<not> quote_colon cs" using quote_colon_Cons by blast
  then have "match_tail (acc @ [c]) cs = None"
    by (cases "(acc @ [c], cs)" rule: match_tail.cases) auto
  with 2 cs show ?case by simp
qed

lemma unquote_keys_no_quote_colon: "\<not> quote_colon s \<Longrightarrow> unquote_keys s = s"
proof (induction s)
  case Nil
  show ?case by simp
next
  case (Cons c s)
  then have s: "\<not> quote_colon s" using quote_colon_Cons by blast
  with Cons.IH show ?case by (simp add: match_group_no_quote_colon)
qed

lemma quote_colon_skip: "DQ \<notin> set p \<Longrightarrow> quote_colon (p @ s) = quote_colon s"
proof (induction p)
  case Nil
  show ?case by simp
next
  case (Cons a p)
  then show ?case by (cases "p @ s") auto
qed

lemma hex_digit_plain: "hex_digit n \<noteq> DQ"
proof -
  have "m < 16 \<Longrightarrow> ''0123456789abcdef'' ! m \<noteq> DQ" for m :: nat
    by (auto simp: eval_nat_numeral less_Suc_eq)
  then show ?thesis by (simp add: hex_digit_def)
qed

lemma escape_char_no_quote: "c \<noteq> DQ \<Longrightarrow> DQ \<notin> set (escape_char c)"
  using hex_digit_plain [of "of_char c div 16"] hex_digit_plain [of "of_char c mod 16"]
  unfolding escape_char_def by (simp del: of_char_Char)

lemma starts_colon_escape: "starts_colon (escape_char c @ s) = (c = CHR '':'')"
proof (cases "c = CHR '':''")
  case True
  then show ?thesis by (simp add: escape_char_def starts_colon_def)
next
  case False
  then show ?thesis by (simp add: escape_char_def starts_colon_def)
qed

lemma quote_colon_escaped:
  "quote_colon (concat (map escape_char v) @ [DQ]) \<Longrightarrow> quote_colon v"
proof (induction v)
  case Nil
  then show ?case by simp
next
  case (Cons c v)
  let ?s = "concat (map escape_char v) @ [DQ]"
  show ?case
  proof (cases "c = DQ")
    case False
    then have "quote_colon (escape_char c @ ?s) = quote_colon ?s"
      by (intro quote_colon_skip escape_char_no_quote)
    with Cons show ?thesis using quote_colon_Cons by simp
  next
    case True
    obtain x s' where s: "?s = x # s'" by (cases ?s) simp_all
    have "escape_char DQ = [BSL, DQ]" by (simp add: escape_char_def)
    with True Cons.prems have "quote_colon (DQ # ?s)" by simp
    with s have "x = CHR '':'' \<or> quote_colon ?s" by simp
    then show ?thesis
    proof
      assume "quote_colon ?s"
      with Cons.IH show ?thesis using quote_colon_Cons by blast
    next
      assume x: "x = CHR '':''"
      show ?thesis
      proof (cases v)
        case Nil
        with s x show ?thesis by simp
      next
        case (Cons c' v')
        with s x have "starts_colon (escape_char c' @ concat (map escape_char v') @ [DQ])"
          by (simp add: starts_colon_def)
        then have "c' = CHR '':''" by (simp only: starts_colon_escape)
        with Cons True show ?thesis by simp
      qed
    qed
  qed
qed

lemma unquote_json_quote:
  assumes "\<not> quote_colon v"
  shows "unquote_keys (json_quote v) = json_quote v"
proof -
  from assms have s: "\<not> quote_colon (concat (map escape_char v) @ [DQ])"
    using quote_colon_escaped by blast
  then have "match_group [] (concat (map escape_char v) @ [DQ]) = None"
    by (rule match_group_no_quote_colon)
  moreover from s have "unquote_keys (concat (map escape_char v) @ [DQ]) =
      concat (map escape_char v) @ [DQ]"
    by (rule unquote_keys_no_quote_colon)
  ultimately show ?thesis by (simp add: json_quote_def)
qed

subsection \<open>The text of the file\<close>

text \<open>
  For an object with plain keys, the rewriting of line 91 turns the output of
  \<^verbatim>\<open>JSON.stringify\<close> into the layout: every key loses its quotes, and every value is
  rewritten on its own.
\<close>

lemma json_members_defined:
  "json_members obj =
   map (\<lambda>f. json_quote (fst f) @ '': '' @ json_quote (snd f)) (defined_fields obj)"
  by (induction obj rule: json_members.induct) simp_all

lemma json_members_undefined:
  "json_members (b1 @ (k, None) # b2) = json_members (b1 @ b2)"
  by (induction b1 rule: json_members.induct) simp_all

lemma unquote_member:
  assumes "plain_key k" and "match_group [] t = None" and "\<not> starts_colon t"
  shows "unquote_keys (json_quote k @ '': '' @ json_quote v @ t) =
         k @ '': '' @ unquote_keys (json_quote v) @ unquote_keys t"
proof -
  from assms(1) have k: "k \<noteq> []" "list_all in_class k" and q: "json_quote k = DQ # k @ [DQ]"
    by (simp_all add: plain_key_def json_quote_def)
  have "unquote_keys (json_quote k @ '': '' @ json_quote v @ t) =
        unquote_keys (DQ # k @ DQ # CHR '':'' # ('' '' @ json_quote v @ t))"
    by (simp add: q)
  also have "\<dots> = k @ CHR '':'' # unquote_keys ('' '' @ json_quote v @ t)"
    using k by (rule unquote_keys_key)
  also have "unquote_keys ('' '' @ json_quote v @ t) = '' '' @ unquote_keys (json_quote v @ t)"
    by (rule unquote_keys_no_quote) simp
  also have "json_quote v @ t = (DQ # concat (map escape_char v)) @ DQ # t"
    by (simp add: json_quote_def)
  also have "unquote_keys \<dots> =
      unquote_keys ((DQ # concat (map escape_char v)) @ [DQ]) @ unquote_keys t"
    using assms(2,3) by (rule unquote_keys_closing)
  finally show ?thesis by (simp add: json_quote_def)
qed

lemma unquote_members:
  assumes "list_all (\<lambda>f. plain_key (fst f)) fs"
  shows "unquote_keys
           (join '',\<newline>    '' (map (\<lambda>f. json_quote (fst f) @ '': '' @ json_quote (snd f)) fs) @
            ''\<newline>}'') =
         join '',\<newline>    '' (map member_text fs) @ ''\<newline>}''"
  using assms
proof (induction fs rule: induct_list012)
  case 1
  show ?case by (simp add: in_class_def)
next
  case (2 f)
  have "match_group [] ''\<newline>}'' = None" by (simp add: in_class_def)
  moreover have "\<not> starts_colon ''\<newline>}''" by (simp add: starts_colon_def)
  moreover from 2 have "plain_key (fst f)" by simp
  ultimately have "unquote_keys (json_quote (fst f) @ '': '' @ json_quote (snd f) @ ''\<newline>}'') =
      fst f @ '': '' @ unquote_keys (json_quote (snd f)) @ unquote_keys ''\<newline>}''"
    by (intro unquote_member)
  then show ?case by (simp add: member_text_def in_class_def)
next
  case (3 f g fs)
  let ?mem = "\<lambda>f. json_quote (fst f) @ '': '' @ json_quote (snd f)"
  let ?rest = "join '',\<newline>    '' (map ?mem (g # fs)) @ ''\<newline>}''"
  let ?t = "'',\<newline>    '' @ ?rest"
  from 3 have f: "plain_key (fst f)" and g: "plain_key (fst g)"
    and fs: "list_all (\<lambda>f. plain_key (fst f)) (g # fs)"
    by simp_all
  obtain r where r: "?rest = DQ # fst g @ r"
  proof (cases fs)
    case Nil
    with g show ?thesis using that by (simp add: plain_key_def json_quote_def)
  next
    case (Cons h hs)
    with g show ?thesis using that by (simp add: plain_key_def json_quote_def)
  qed
  from g have "\<not> starts_colon (fst g @ r)"
    by (cases "fst g") (simp_all add: plain_key_def starts_colon_def)
  then have "match_group [] ('',\<newline>    '' @ DQ # fst g @ r) = None"
    by (intro match_group_before_quote) (simp_all add: in_class_def)
  with r have "match_group [] ?t = None" by simp
  moreover have "\<not> starts_colon ?t" by (simp add: starts_colon_def)
  ultimately have "unquote_keys (?mem f @ ?t) =
      fst f @ '': '' @ unquote_keys (json_quote (snd f)) @ unquote_keys ?t"
    using f unquote_member [of "fst f" ?t "snd f"] by simp
  moreover have "unquote_keys ?t = '',\<newline>    '' @ unquote_keys ?rest"
    by (rule unquote_keys_no_quote) simp
  moreover from fs have "unquote_keys ?rest =
      join '',\<newline>    '' (map member_text (g # fs)) @ ''\<newline>}''"
    by (rule "3.IH"(2))
  moreover have "member_text f = fst f @ '': '' @ unquote_keys (json_quote (snd f))"
    by (simp add: member_text_def)
  ultimately show ?case by simp
qed

lemma join_indent:
  "xs \<noteq> [] \<Longrightarrow> p @ join (sep @ p) xs = join sep (map ((@) p) xs)"
  by (induction xs rule: induct_list012) simp_all

lemma unquote_stringify:
  assumes "list_all (\<lambda>p. plain_key (fst p)) obj"
  shows "unquote_keys (JSON_stringify obj) = layout obj"
proof (cases "defined_fields obj = []")
  case True
  then show ?thesis
    by (simp add: JSON_stringify_def layout_def json_members_defined in_class_def)
next
  case False
  have keys: "list_all (\<lambda>f. plain_key (fst f)) (defined_fields obj)"
    using assms by (induction obj rule: defined_fields.induct) simp_all
  have "unquote_keys (JSON_stringify obj) =
      ''{\<newline>    '' @ unquote_keys (join '',\<newline>    '' (json_members obj) @ ''\<newline>}'')"
    using False unquote_keys_no_quote [of "''{\<newline>    ''"]
    by (simp add: JSON_stringify_def json_members_defined)
  also have "\<dots> = ''{\<newline>    '' @ join '',\<newline>    '' (map member_text (defined_fields obj)) @ ''\<newline>}''"
    using unquote_members [OF keys] by (simp add: json_members_defined)
  also have "\<dots> = ''{\<newline>'' @
      (''    '' @ join ('',\<newline>'' @ ''    '') (map member_text (defined_fields obj))) @ ''\<newline>}''"
    by simp
  also have "''    '' @ join ('',\<newline>'' @ ''    '') (map member_text (defined_fields obj)) =
      join '',\<newline>'' (map ((@) ''    '') (map member_text (defined_fields obj)))"
    using False by (intro join_indent) simp
  finally show ?thesis using False by (simp add: layout_def comp_def)
qed

lemma plain_keys:
  "plain_key ''hash''" "plain_key ''user''" "plain_key ''version''" "plain_key ''timestamp''"
  by (simp_all add: plain_key_def in_class_def starts_colon_def escape_char_def)

lemma file_text_layout:
  "list_all (\<lambda>p. plain_key (fst p)) obj \<Longrightarrow>
   file_text obj = header @ ''export const buildInfo = '' @ layout obj @ '';\<newline>''"
  by (simp add: file_text_def unquote_stringify)

subsection \<open>The runs\<close>

lemma fst_and_then:
  "fst (and_then m f) = fst m @ (case snd m of Inl err \<Rightarrow> [] | Inr x \<Rightarrow> fst (f x))"
  by (simp add: and_then_def split: prod.splits sum.splits)

lemma snd_and_then:
  "snd (and_then m f) = (case snd m of Inl err \<Rightarrow> Inl err | Inr x \<Rightarrow> snd (f x))"
  by (simp add: and_then_def split: prod.splits sum.splits)

lemma and_then_Inr:
  assumes "snd (and_then m f) = Inr y"
  obtains x where "snd m = Inr x" and "snd (f x) = Inr y"
  using assms by (cases "snd m") (simp_all add: snd_and_then)

lemma getCommitHash_events: "list_all (\<lambda>ev. \<not> is_write ev) (fst (getCommitHash e))"
  by (simp add: getCommitHash_def split: exec_result.splits)

lemma getGitUser_events: "list_all (\<lambda>ev. \<not> is_write ev) (fst (getGitUser e))"
  by (simp add: getGitUser_def split: exec_result.splits)

lemma collect_events: "list_all (\<lambda>ev. \<not> is_write ev) (fst (collect e args))"
  using getCommitHash_events [of e] getGitUser_events [of e]
  by (simp add: collect_def fst_and_then snd_and_then Let_def split: sum.splits)

lemma check_args_unknown:
  "List.find (\<lambda>a. a \<notin> set opts) args = Some a \<Longrightarrow>
   check_args args = Inl (InvalidArgument (unknown_arg a))"
  by (induction args) (auto split: if_splits)

lemma buildInfo_collected:
  "collect e args = (t, Inr obj) \<Longrightarrow>
   buildInfo e args = (t @ fst (save e obj), Inr ())"
  by (simp add: buildInfo_def and_then_def save_def)

lemma buildInfo_thrown:
  "collect e args = (t, Inl err) \<Longrightarrow> buildInfo e args = (t, Inl err)"
  by (simp add: buildInfo_def and_then_def)

text \<open>
  The object that the pipeline assembles: the four fields in order, without the
  suppressed ones; \<open>h\<close> and \<open>u\<close> are what the two queries returned.
\<close>

lemma collect_object:
  assumes "collect e args = (t, Inr obj)"
  shows "\<exists>h u. (''--no-hash'' \<in> set args \<or> snd (getCommitHash e) = Inr h) \<and>
      (''--no-user'' \<in> set args \<or> snd (getGitUser e) = Inr u) \<and>
      obj = (if ''--no-hash'' \<in> set args then [] else [(''hash'', h)]) @
            (if ''--no-user'' \<in> set args then [] else [(''user'', u)]) @
            (if ''--no-version'' \<in> set args then [] else [(''version'', package_version e)]) @
            (if ''--no-time'' \<in> set args then [] else [(''timestamp'', Some (moment_format e))])"
proof -
  from assms have "snd (collect e args) = Inr obj" by simp
  then obtain b1 b2 where
    b1: "snd (if ''--no-hash'' \<notin> set args
              then and_then (getCommitHash e) (\<lambda>v. ([], Inr (set_prop ''hash'' v [])))
              else ([], Inr [])) = Inr b1"
    and b2: "snd (if ''--no-user'' \<notin> set args
              then and_then (getGitUser e) (\<lambda>v. ([], Inr (set_prop ''user'' v b1)))
              else ([], Inr b1)) = Inr b2"
    and obj: "obj = (let b3 = (if ''--no-version'' \<notin> set args
                       then set_prop ''version'' (package_version e) b2 else b2)
                 in if ''--no-time'' \<notin> set args
                    then set_prop ''timestamp'' (Some (moment_format e)) b3 else b3)"
    unfolding collect_def by (elim and_then_Inr) (simp add: Let_def)
  have "\<exists>h. (''--no-hash'' \<in> set args \<or> snd (getCommitHash e) = Inr h) \<and>
      b1 = (if ''--no-hash'' \<in> set args then [] else [(''hash'', h)])"
  proof (cases "''--no-hash'' \<in> set args")
    case True
    with b1 show ?thesis by simp
  next
    case False
    with b1 have "snd (and_then (getCommitHash e)
        (\<lambda>v. ([], Inr (set_prop ''hash'' v [])))) = Inr b1"
      by simp
    then obtain h where "snd (getCommitHash e) = Inr h" and "b1 = set_prop ''hash'' h []"
      by (rule and_then_Inr) simp
    with False show ?thesis by simp
  qed
  then obtain h where h: "''--no-hash'' \<in> set args \<or> snd (getCommitHash e) = Inr h"
    and b1': "b1 = (if ''--no-hash'' \<in> set args then [] else [(''hash'', h)])"
    by blast
  have "\<exists>u. (''--no-user'' \<in> set args \<or> snd (getGitUser e) = Inr u) \<and>
      b2 = b1 @ (if ''--no-user'' \<in> set args then [] else [(''user'', u)])"
  proof (cases "''--no-user'' \<in> set args")
    case True
    with b2 show ?thesis by simp
  next
    case False
    with b2 have "snd (and_then (getGitUser e)
        (\<lambda>v. ([], Inr (set_prop ''user'' v b1)))) = Inr b2"
      by simp
    then obtain u where "snd (getGitUser e) = Inr u" and "b2 = set_prop ''user'' u b1"
      by (rule and_then_Inr) simp
    with False show ?thesis by (auto simp: b1')
  qed
  then obtain u where u: "''--no-user'' \<in> set args \<or> snd (getGitUser e) = Inr u"
    and b2': "b2 = b1 @ (if ''--no-user'' \<in> set args then [] else [(''user'', u)])"
    by blast
  have "obj = b2 @
      (if ''--no-version'' \<in> set args then [] else [(''version'', package_version e)]) @
      (if ''--no-time'' \<in> set args then [] else [(''timestamp'', Some (moment_format e))])"
    by (simp add: obj b2' b1' Let_def)
  with h u b1' b2' show ?thesis by auto
qed

lemma collect_plain_keys:
  assumes "collect e args = (t, Inr obj)"
  shows "list_all (\<lambda>p. plain_key (fst p)) obj"
  using collect_object [OF assms] plain_keys by auto

lemma buildInfo_writes:
  assumes "collect e args = (t, Inr obj)"
  shows "filter is_write (fst (buildInfo e args)) = [WriteFile (exportPath e) (file_text obj)]"
proof -
  from collect_events [of e args] assms have "list_all (\<lambda>ev. \<not> is_write ev) t" by simp
  then have "filter is_write t = []" by (simp add: list_all_iff filter_empty_conv)
  then show ?thesis by (simp add: buildInfo_collected [OF assms] save_def)
qed

text \<open>
  The object is assembled whenever every argument is an option and the queries that are
  issued resolve.
\<close>

lemma check_args_known: "set args \<subseteq> set opts \<Longrightarrow> check_args args = Inr ()"
  by (induction args) simp_all

lemma getCommitHash_resolved:
  "exec e ''git rev-parse --short HEAD'' = Resolved out err \<Longrightarrow>
   \<exists>v. snd (getCommitHash e) = Inr v"
  by (simp add: getCommitHash_def)

lemma getGitUser_resolved:
  "exec e ''git config user.name'' = Resolved out err \<Longrightarrow> \<exists>v. snd (getGitUser e) = Inr v"
  by (simp add: getGitUser_def)

lemma collect_assembled:
  assumes "set args \<subseteq> set opts"
    and "''--no-hash'' \<in> set args \<or>
         (\<exists>out err. exec e ''git rev-parse --short HEAD'' = Resolved out err)"
    and "''--no-user'' \<in> set args \<or>
         (\<exists>out err. exec e ''git config user.name'' = Resolved out err)"
  shows "\<exists>t obj. collect e args = (t, Inr obj)"
proof -
  from assms(1) have "check_args args = Inr ()" by (rule check_args_known)
  moreover from assms(2) have "''--no-hash'' \<in> set args \<or> (\<exists>v. snd (getCommitHash e) = Inr v)"
    using getCommitHash_resolved by blast
  moreover from assms(3) have "''--no-user'' \<in> set args \<or> (\<exists>v. snd (getGitUser e) = Inr v)"
    using getGitUser_resolved by blast
  ultimately have "\<exists>obj. snd (collect e args) = Inr obj"
    by (auto simp: collect_def snd_and_then Let_def)
  then show ?thesis by (cases "collect e args") auto
qed

text \<open>
  What the two queries do with an answer of the shell: a resolved answer with text on
  the error channel is logged and yields \<^verbatim>\<open>undefined\<close>; of an answer without such
  text the first line break is removed, which leaves a usual one-line answer bare.
\<close>

lemma getCommitHash_stderr:
  "exec e ''git rev-parse --short HEAD'' = Resolved out err \<Longrightarrow> err \<noteq> [] \<Longrightarrow>
   getCommitHash e =
     ([Exec ''git rev-parse --short HEAD'',
       Log Error ''Error getting latest commit hash, skipping...''], Inr None)"
  by (simp add: getCommitHash_def)

lemma getGitUser_stderr:
  "exec e ''git config user.name'' = Resolved out err \<Longrightarrow> err \<noteq> [] \<Longrightarrow>
   getGitUser e =
     ([Exec ''git config user.name'', Log Error ''Error getting git user, skipping...''],
      Inr None)"
  by (simp add: getGitUser_def)

lemma replace_first_one_line:
  "CHR ''\<newline>'' \<notin> set s \<Longrightarrow> replace_first ''\<newline>'' [] (s @ ''\<newline>'') = s"
  by (induction s) auto

text \<open>
  The definitions that a run on given arguments unfolds.
\<close>

lemmas run_defs = start_def buildInfo_def collect_def and_then_def save_def getGitUser_def
  getCommitHash_def example_env_def exportPath_def opts_def init_def displayManual_def Let_def

lemmas text_defs = file_text_def JSON_stringify_def json_quote_def escape_char_def in_class_def
  template_def

section \<open>The claims\<close>

subsection \<open>C1: unknown arguments\<close>

text \<open>
  Claim C1, as amended. The arguments are checked by \<^verbatim>\<open>buildInfo\<close> only, which
  \<^verbatim>\<open>start\<close> calls when neither \<^verbatim>\<open>--init\<close> nor \<^verbatim>\<open>--help\<close> is given. For
  every argument list without these two flags that holds a token outside the recognized
  set, the run ends with the error of line 57, whose message names the first such token;
  the only event before it is the start message, so no query was issued and
  \<^verbatim>\<open>fs.writeFile\<close> was not called.
\<close>

theorem unknown_arg_aborts:
  assumes "''--init'' \<notin> set args" and "''--help'' \<notin> set args"
    and "\<not> set args \<subseteq> set opts"
  shows "\<exists>a. List.find (\<lambda>a. a \<notin> set opts) args = Some a \<and>
     start e args =
       ([Log Start ''Collecting build information...''],
        Inl (InvalidArgument (unknown_arg a)))"
proof -
  from assms(3) obtain a where a: "List.find (\<lambda>a. a \<notin> set opts) args = Some a"
    by (cases "List.find (\<lambda>a. a \<notin> set opts) args") (auto simp: find_None_iff)
  then have "check_args args = Inl (InvalidArgument (unknown_arg a))"
    by (rule check_args_unknown)
  then have "collect e args =
      ([Log Start ''Collecting build information...''], Inl (InvalidArgument (unknown_arg a)))"
    by (simp add: collect_def and_then_def)
  then have "buildInfo e args =
      ([Log Start ''Collecting build information...''], Inl (InvalidArgument (unknown_arg a)))"
    by (rule buildInfo_thrown)
  with assms(1,2) a show ?thesis by (simp add: start_def)
qed

text \<open>
  At the arguments \<^verbatim>\<open>--no-hash --bogus --verbose\<close> the error names
  \<^verbatim>\<open>--bogus\<close>.
\<close>

theorem unknown_arg_aborts_witness:
  "''--init'' \<notin> set [''--no-hash'', ''--bogus'', ''--verbose''] \<and>
   ''--help'' \<notin> set [''--no-hash'', ''--bogus'', ''--verbose''] \<and>
   \<not> set [''--no-hash'', ''--bogus'', ''--verbose''] \<subseteq> set opts \<and>
   start (example_env (Resolved ''Jane Doe\<newline>'' []) (Resolved ''abc1234\<newline>'' []) True)
     [''--no-hash'', ''--bogus'', ''--verbose''] =
   ([Log Start ''Collecting build information...''],
    Inl (InvalidArgument (unknown_arg ''--bogus'')))"
proof -
  have h: "''--init'' \<notin> set [''--no-hash'', ''--bogus'', ''--verbose'']"
    "''--help'' \<notin> set [''--no-hash'', ''--bogus'', ''--verbose'']"
    "\<not> set [''--no-hash'', ''--bogus'', ''--verbose''] \<subseteq> set opts"
    by (simp_all add: opts_def)
  from unknown_arg_aborts [OF h] h show ?thesis by (simp add: opts_def)
qed

text \<open>
  Claim C1 as stated fails: with \<^verbatim>\<open>--init --bogus\<close> the token \<^verbatim>\<open>--bogus\<close> is
  not an option, and yet the run is the scaffold flow, ends normally and writes the
  file.
\<close>

theorem unknown_arg_ignored_by_init:
  "''--bogus'' \<notin> set opts \<and>
   start (example_env (Resolved ''Jane Doe\<newline>'' []) (Resolved ''abc1234\<newline>'' []) True)
     [''--init'', ''--bogus''] =
   init (example_env (Resolved ''Jane Doe\<newline>'' []) (Resolved ''abc1234\<newline>'' []) True) \<and>
   snd (start (example_env (Resolved ''Jane Doe\<newline>'' []) (Resolved ''abc1234\<newline>'' []) True)
     [''--init'', ''--bogus'']) = Inr () \<and>
   filter is_write
     (fst (start (example_env (Resolved ''Jane Doe\<newline>'' []) (Resolved ''abc1234\<newline>'' []) True)
       [''--init'', ''--bogus''])) =
   [WriteFile ''/project/src/build.ts''
      (file_text (template
        (example_env (Resolved ''Jane Doe\<newline>'' []) (Resolved ''abc1234\<newline>'' []) True)))]"
  by (simp add: run_defs)

subsection \<open>C2: fields whose value is undefined\<close>

text \<open>
  Claim C2, as amended. \<^verbatim>\<open>JSON.stringify\<close> leaves out a property whose value is
  \<^verbatim>\<open>undefined\<close>: the text written for an object that holds such a field is the text
  written for the object without that field. So when a query returned
  \<^verbatim>\<open>undefined\<close>, the file has no line for its key.
\<close>

theorem undefined_field_omitted:
  "file_text (b1 @ (k, None) # b2) = file_text (b1 @ b2)"
  by (simp add: file_text_def JSON_stringify_def json_members_undefined)

text \<open>
  The text for an undefined \<^verbatim>\<open>hash\<close> and a user is the text for the user alone.
\<close>

theorem undefined_field_omitted_witness:
  "file_text [(''hash'', None), (''user'', Some ''Jane'')] = file_text [(''user'', Some ''Jane'')]"
  using undefined_field_omitted [of "[]" "''hash''" "[(''user'', Some ''Jane'')]"] by simp

text \<open>
  Claim C2 as stated fails: when the hash query answers on its error channel, the
  build object holds the key \<^verbatim>\<open>hash\<close> with the value \<^verbatim>\<open>undefined\<close>, and the text
  written holds the user only: neither the key \<^verbatim>\<open>hash\<close> nor a literal for "no value".
\<close>

theorem undefined_hash_not_written:
  "buildInfo (example_env (Resolved ''Jane\<newline>'' []) (Resolved [] ''warning: refname is ambiguous'') True)
     [''--no-version'', ''--no-time''] =
   ([Log Start ''Collecting build information...'',
     Exec ''git rev-parse --short HEAD'',
     Log Error ''Error getting latest commit hash, skipping...'',
     Exec ''git config user.name'',
     Log Success ''Found git user: Jane'',
     LogObject Info [(''hash'', None), (''user'', Some ''Jane'')],
     WriteFile ''/project/src/build.ts''
       (header @ ''export const buildInfo = {\<newline>    user: \"Jane\"\<newline>};\<newline>''),
     Log Success ''Saved build information to `/project/src/build.ts`''],
    Inr ())"
  by (simp add: run_defs text_defs)

subsection \<open>C3: the fields of the build object\<close>

text \<open>
  Claim C3. Whenever the build object is assembled, its keys are the four fields
  \<^verbatim>\<open>hash\<close>, \<^verbatim>\<open>user\<close>, \<^verbatim>\<open>version\<close>, \<^verbatim>\<open>timestamp\<close>, in this order, without
  those whose suppression flag is among the arguments; a query that returned
  \<^verbatim>\<open>undefined\<close> leaves its key in the object, with the value \<^verbatim>\<open>undefined\<close>.
  (By \<open>collect_assembled\<close> the object is assembled for every list of suppression
  flags when the queries issued resolve.)
\<close>

theorem collect_fields:
  assumes "collect e args = (t, Inr obj)"
  shows "map fst obj =
      (if ''--no-hash'' \<in> set args then [] else [''hash'']) @
      (if ''--no-user'' \<in> set args then [] else [''user'']) @
      (if ''--no-version'' \<in> set args then [] else [''version'']) @
      (if ''--no-time'' \<in> set args then [] else [''timestamp'']) \<and>
    (''--no-hash'' \<notin> set args \<and> snd (getCommitHash e) = Inr None
       \<longrightarrow> (''hash'', None) \<in> set obj) \<and>
    (''--no-user'' \<notin> set args \<and> snd (getGitUser e) = Inr None
       \<longrightarrow> (''user'', None) \<in> set obj)"
  using collect_object [OF assms] by auto

text \<open>
  With \<^verbatim>\<open>--no-time\<close> and a hash query that answers on its error channel, the
  object holds \<^verbatim>\<open>hash\<close> (undefined), \<^verbatim>\<open>user\<close> and \<^verbatim>\<open>version\<close>.
\<close>

theorem collect_fields_witness:
  "collect (example_env (Resolved ''Jane\<newline>'' []) (Resolved [] ''warning: refname is ambiguous'') True)
     [''--no-time''] =
   ([Log Start ''Collecting build information...'',
     Exec ''git rev-parse --short HEAD'',
     Log Error ''Error getting latest commit hash, skipping...'',
     Exec ''git config user.name'',
     Log Success ''Found git user: Jane'',
     LogObject Info [(''hash'', None), (''user'', Some ''Jane''), (''version'', Some ''2.3.1'')]],
    Inr [(''hash'', None), (''user'', Some ''Jane''), (''version'', Some ''2.3.1'')]) \<and>
   map fst [(''hash'', None), (''user'', Some ''Jane''), (''version'', Some ''2.3.1'')] =
     [''hash'', ''user'', ''version''] \<and>
   (''hash'', None) \<in> set [(''hash'', None), (''user'', Some ''Jane''), (''version'', Some ''2.3.1'')]"
proof -
  let ?e = "example_env (Resolved ''Jane\<newline>'' []) (Resolved [] ''warning: refname is ambiguous'') True"
  have c: "collect ?e [''--no-time''] =
   ([Log Start ''Collecting build information...'',
     Exec ''git rev-parse --short HEAD'',
     Log Error ''Error getting latest commit hash, skipping...'',
     Exec ''git config user.name'',
     Log Success ''Found git user: Jane'',
     LogObject Info [(''hash'', None), (''user'', Some ''Jane''), (''version'', Some ''2.3.1'')]],
    Inr [(''hash'', None), (''user'', Some ''Jane''), (''version'', Some ''2.3.1'')])"
    by (simp add: run_defs)
  have "snd (getCommitHash ?e) = Inr None" by (simp add: run_defs)
  with collect_fields [OF c] c show ?thesis by simp
qed

subsection \<open>C4: the line break of a query\<close>

text \<open>
  Claim C4 does not hold of the code: \<^verbatim>\<open>stdout.replace("\n", "")\<close> removes the
  first line break only. For a user name of two lines, which
  \<^verbatim>\<open>git config user.name\<close> prints followed by a line break, the value returned is the
  two lines glued together and still ends with a line break.
\<close>

theorem first_newline_only:
  "getGitUser (example_env (Resolved ''Jane\<newline>Doe\<newline>'' []) (Resolved ''abc1234\<newline>'' []) True) =
   ([Exec ''git config user.name'', Log Success ''Found git user: JaneDoe\<newline>''],
    Inr (Some ''JaneDoe\<newline>''))"
  by (simp add: run_defs)

subsection \<open>C5: a query that fails\<close>

text \<open>
  Claim C5 does not hold of the code: when the command exits with a code other than 0
  (as \<^verbatim>\<open>git rev-parse\<close> does outside a repository), the promise of \<^verbatim>\<open>exec\<close> is
  rejected; \<^verbatim>\<open>getCommitHash\<close> has no handler, logs nothing and throws, and the run
  ends with that error before anything is written.
\<close>

theorem rejected_query_propagates:
  "getCommitHash (example_env (Resolved ''Jane\<newline>'' [])
      (Rejected ''Command failed: git rev-parse --short HEAD'') True) =
   ([Exec ''git rev-parse --short HEAD''],
    Inl (ExecError ''Command failed: git rev-parse --short HEAD'')) \<and>
   start (example_env (Resolved ''Jane\<newline>'' [])
      (Rejected ''Command failed: git rev-parse --short HEAD'') True) [] =
   ([Log Start ''Collecting build information...'', Exec ''git rev-parse --short HEAD''],
    Inl (ExecError ''Command failed: git rev-parse --short HEAD''))"
  by (simp add: run_defs)

subsection \<open>C6: keys and values in the text\<close>

text \<open>
  Claim C6 does not hold of the code: the regular expression of line 91 also matches
  inside a value. For the user name \<^verbatim>\<open>a":b\<close> the text written has lost the opening
  quote of the value and the quote inside it.
\<close>

theorem value_rewritten:
  "start (example_env (Resolved ''a\":b\<newline>'' []) (Resolved ''abc1234\<newline>'' []) True)
     [''--no-hash'', ''--no-version'', ''--no-time''] =
   ([Log Start ''Collecting build information...'',
     Exec ''git config user.name'',
     Log Success ''Found git user: a\":b'',
     LogObject Info [(''user'', Some ''a\":b'')],
     WriteFile ''/project/src/build.ts''
       (header @ ''export const buildInfo = {\<newline>    user: a'' @ [BSL] @ '':b\"\<newline>};\<newline>''),
     Log Success ''Saved build information to `/project/src/build.ts`''],
    Inr ())"
  by (simp add: run_defs text_defs)

subsection \<open>C7: a write that fails\<close>

text \<open>
  Claim C7. Whenever a run calls \<^verbatim>\<open>fs.writeFile\<close> and the write fails, the path is
  the export path, the last event of the run is the error message that names this path,
  and the run ends normally.
\<close>

theorem write_failure_caught:
  assumes "WriteFile p txt \<in> set (fst (start e args))" and "\<not> writeFile e p txt"
  shows "snd (start e args) = Inr () \<and> p = exportPath e \<and>
     last (fst (start e args)) =
       Log Error (''An error occured writing to `'' @ exportPath e @ ''`, does the path exist?'')"
proof -
  consider (init) "''--init'' \<in> set args"
    | (manual) "''--init'' \<notin> set args" "''--help'' \<in> set args"
    | (build) "''--init'' \<notin> set args" "''--help'' \<notin> set args"
    by blast
  then show ?thesis
  proof cases
    case init
    with assms show ?thesis by (auto simp: start_def init_def split: if_splits)
  next
    case manual
    with assms show ?thesis by (simp add: start_def displayManual_def)
  next
    case build
    then have s: "start e args = buildInfo e args" by (simp add: start_def)
    obtain t r where c: "collect e args = (t, r)" by (cases "collect e args")
    from collect_events [of e args] c have t: "WriteFile p txt \<notin> set t"
      by (auto simp: list_all_iff)
    show ?thesis
    proof (cases r)
      case (Inl err)
      with c have "buildInfo e args = (t, Inl err)" by (simp add: buildInfo_thrown)
      with assms(1) s t show ?thesis by simp
    next
      case (Inr obj)
      with c have b: "buildInfo e args = (t @ fst (save e obj), Inr ())"
        by (simp add: buildInfo_collected)
      with assms(1) s t have "WriteFile p txt \<in> set (fst (save e obj))" by simp
      with assms(2) have "p = exportPath e" and "txt = file_text obj"
        and "\<not> writeFile e (exportPath e) (file_text obj)"
        by (auto simp: save_def split: if_splits)
      with s b show ?thesis by (simp add: save_def)
    qed
  qed
qed

text \<open>
  With all four fields suppressed and a file system that refuses the write.
\<close>

theorem write_failure_caught_witness:
  "WriteFile ''/project/src/build.ts'' (header @ ''export const buildInfo = {};\<newline>'') \<in>
     set (fst (start (example_env (Resolved ''Jane\<newline>'' []) (Resolved ''abc1234\<newline>'' []) False)
       [''--no-hash'', ''--no-user'', ''--no-version'', ''--no-time''])) \<and>
   \<not> writeFile (example_env (Resolved ''Jane\<newline>'' []) (Resolved ''abc1234\<newline>'' []) False)
       ''/project/src/build.ts'' (header @ ''export const buildInfo = {};\<newline>'') \<and>
   snd (start (example_env (Resolved ''Jane\<newline>'' []) (Resolved ''abc1234\<newline>'' []) False)
       [''--no-hash'', ''--no-user'', ''--no-version'', ''--no-time'']) = Inr () \<and>
   last (fst (start (example_env (Resolved ''Jane\<newline>'' []) (Resolved ''abc1234\<newline>'' []) False)
       [''--no-hash'', ''--no-user'', ''--no-version'', ''--no-time''])) =
     Log Error ''An error occured writing to `/project/src/build.ts`, does the path exist?''"
proof -
  let ?e = "example_env (Resolved ''Jane\<newline>'' []) (Resolved ''abc1234\<newline>'' []) False"
  let ?args = "[''--no-hash'', ''--no-user'', ''--no-version'', ''--no-time'']"
  let ?txt = "header @ ''export const buildInfo = {};\<newline>''"
  have w: "WriteFile ''/project/src/build.ts'' ?txt \<in> set (fst (start ?e ?args))"
    by (simp add: run_defs text_defs)
  have f: "\<not> writeFile ?e ''/project/src/build.ts'' ?txt"
    by (simp add: example_env_def)
  have p: "exportPath ?e = ''/project/src/build.ts''"
    by (simp add: example_env_def exportPath_def)
  from write_failure_caught [OF w f] w f p show ?thesis by simp
qed

subsection \<open>C8: the text is a function of the build object\<close>

text \<open>
  Claim C8. Two runs of the pipeline, in any two environments and on any two argument
  lists, that assemble the same build object hand the same text to
  \<^verbatim>\<open>fs.writeFile\<close>: the comment line, the declaration of the constant, and the layout
  of the object, one line for each defined field in insertion order, indented by four
  spaces.
\<close>

theorem same_record_same_text:
  assumes "collect e1 args1 = (t1, Inr obj)" and "collect e2 args2 = (t2, Inr obj)"
  shows "\<exists>txt. filter is_write (fst (buildInfo e1 args1)) = [WriteFile (exportPath e1) txt] \<and>
     filter is_write (fst (buildInfo e2 args2)) = [WriteFile (exportPath e2) txt] \<and>
     txt = header @ ''export const buildInfo = '' @ layout obj @ '';\<newline>''"
  using buildInfo_writes [OF assms(1)] buildInfo_writes [OF assms(2)]
    file_text_layout [OF collect_plain_keys [OF assms(1)]]
  by simp

text \<open>
  Two runs that differ in the answers of git, in the arguments and in the outcome of
  the write, with the same object.
\<close>

theorem same_record_same_text_witness:
  "collect (example_env (Resolved ''Jane\<newline>'' []) (Resolved ''abc1234\<newline>'' []) True)
     [''--no-hash'', ''--no-user''] =
   ([Log Start ''Collecting build information...'',
     LogObject Info [(''version'', Some ''2.3.1''), (''timestamp'', Some ''November 03, 2026 06:01:00'')]],
    Inr [(''version'', Some ''2.3.1''), (''timestamp'', Some ''November 03, 2026 06:01:00'')]) \<and>
   collect (example_env (Rejected ''Command failed'') (Rejected ''Command failed'') False)
     [''--no-user'', ''--no-hash'', ''--no-hash''] =
   ([Log Start ''Collecting build information...'',
     LogObject Info [(''version'', Some ''2.3.1''), (''timestamp'', Some ''November 03, 2026 06:01:00'')]],
    Inr [(''version'', Some ''2.3.1''), (''timestamp'', Some ''November 03, 2026 06:01:00'')]) \<and>
   filter is_write
     (fst (buildInfo (example_env (Resolved ''Jane\<newline>'' []) (Resolved ''abc1234\<newline>'' []) True)
       [''--no-hash'', ''--no-user''])) =
   [WriteFile ''/project/src/build.ts''
     (header @ ''export const buildInfo = {\<newline>'' @
      ''    version: \"2.3.1\",\<newline>'' @
      ''    timestamp: \"November 03, 2026 06:01:00\"\<newline>'' @
      ''};\<newline>'')] \<and>
   filter is_write
     (fst (buildInfo (example_env (Rejected ''Command failed'') (Rejected ''Command failed'') False)
       [''--no-user'', ''--no-hash'', ''--no-hash''])) =
   [WriteFile ''/project/src/build.ts''
     (header @ ''export const buildInfo = {\<newline>'' @
      ''    version: \"2.3.1\",\<newline>'' @
      ''    timestamp: \"November 03, 2026 06:01:00\"\<newline>'' @
      ''};\<newline>'')]"
proof -
  let ?e1 = "example_env (Resolved ''Jane\<newline>'' []) (Resolved ''abc1234\<newline>'' []) True"
  let ?e2 = "example_env (Rejected ''Command failed'') (Rejected ''Command failed'') False"
  let ?obj = "[(''version'', Some ''2.3.1''), (''timestamp'', Some ''November 03, 2026 06:01:00'')]"
  let ?t = "[Log Start ''Collecting build information...'', LogObject Info ?obj]"
  have c1: "collect ?e1 [''--no-hash'', ''--no-user''] = (?t, Inr ?obj)"
    by (simp add: run_defs)
  have c2: "collect ?e2 [''--no-user'', ''--no-hash'', ''--no-hash''] = (?t, Inr ?obj)"
    by (simp add: run_defs)
  have l: "layout ?obj =
      ''{\<newline>    version: \"2.3.1\",\<newline>    timestamp: \"November 03, 2026 06:01:00\"\<newline>}''"
    by (simp add: layout_def member_text_def json_quote_def escape_char_def in_class_def)
  have p: "exportPath ?e1 = ''/project/src/build.ts''" "exportPath ?e2 = ''/project/src/build.ts''"
    by (simp_all add: example_env_def exportPath_def)
  from same_record_same_text [OF c1 c2] c1 c2 l p show ?thesis by auto
qed

subsection \<open>C9: the choice of the mode\<close>

text \<open>
  Claim C9. With \<^verbatim>\<open>--init\<close> the run is the scaffold flow, whatever else is given;
  otherwise with \<^verbatim>\<open>--help\<close> it is the manual; otherwise it is the pipeline. The three
  runs differ from each other, the scaffold flow issues no query, and the manual consists
  of messages only.
\<close>

theorem mode_priority:
  "(''--init'' \<in> set args \<longrightarrow> start e args = init e) \<and>
   (''--init'' \<notin> set args \<and> ''--help'' \<in> set args \<longrightarrow> start e args = displayManual) \<and>
   (''--init'' \<notin> set args \<and> ''--help'' \<notin> set args \<longrightarrow> start e args = buildInfo e args) \<and>
   init e \<noteq> displayManual \<and> buildInfo e args \<noteq> init e \<and> buildInfo e args \<noteq> displayManual \<and>
   filter is_exec (fst (init e)) = [] \<and>
   list_all (\<lambda>ev. \<not> is_write ev \<and> \<not> is_exec ev) (fst displayManual)"
proof -
  have "hd (fst (buildInfo e args)) = Log Start ''Collecting build information...''"
    by (simp add: buildInfo_def collect_def fst_and_then)
  moreover have "hd (fst (init e)) = Log Info ''Welcome to `angular-build-info`!''"
    and "hd (fst displayManual) = Log Info ''Welcome to `angular-build-info`!''"
    by (simp_all add: init_def displayManual_def)
  ultimately have "buildInfo e args \<noteq> init e" and "buildInfo e args \<noteq> displayManual"
    by auto
  moreover have "init e \<noteq> displayManual"
    by (simp add: init_def displayManual_def)
  moreover have "filter is_exec (fst (init e)) = []"
    by (simp add: init_def)
  moreover have "list_all (\<lambda>ev. \<not> is_write ev \<and> \<not> is_exec ev) (fst displayManual)"
    by (simp add: displayManual_def)
  ultimately show ?thesis by (simp add: start_def)
qed

text \<open>
  With \<^verbatim>\<open>--help --init\<close> the run is the scaffold flow and not the manual.
\<close>

theorem mode_priority_witness:
  "start (example_env (Resolved ''Jane\<newline>'' []) (Resolved ''abc1234\<newline>'' []) True)
     [''--help'', ''--init''] =
   init (example_env (Resolved ''Jane\<newline>'' []) (Resolved ''abc1234\<newline>'' []) True) \<and>
   start (example_env (Resolved ''Jane\<newline>'' []) (Resolved ''abc1234\<newline>'' []) True)
     [''--help'', ''--no-hash''] = displayManual \<and>
   init (example_env (Resolved ''Jane\<newline>'' []) (Resolved ''abc1234\<newline>'' []) True) \<noteq> displayManual"
  using mode_priority
    [of "[''--help'', ''--init'']"
        "example_env (Resolved ''Jane\<newline>'' []) (Resolved ''abc1234\<newline>'' []) True"]
    mode_priority
    [of "[''--help'', ''--no-hash'']"
        "example_env (Resolved ''Jane\<newline>'' []) (Resolved ''abc1234\<newline>'' []) True"]
  by simp

subsection \<open>C10: the template\<close>

text \<open>
  Claim C10. With \<^verbatim>\<open>--init\<close> the one text written is the comment line and the
  template, whose keys stand in the order \<^verbatim>\<open>user\<close>, \<^verbatim>\<open>hash\<close>, \<^verbatim>\<open>version\<close>,
  \<^verbatim>\<open>timestamp\<close>, with the three fixed values and the time of the run. The time is
  rendered as line 127 renders a value: between quotes as \<^verbatim>\<open>JSON.stringify\<close> gives it,
  when it holds no quote followed by a colon (no output of the pattern
  \<^verbatim>\<open>MMMM DD, YYYY HH:mm:ss\<close> holds a quote).
\<close>

theorem init_template_text:
  assumes "''--init'' \<in> set args"
  shows "map fst (template e) = [''user'', ''hash'', ''version'', ''timestamp''] \<and>
     filter is_write (fst (start e args)) =
       [WriteFile (exportPath e)
          (header @
           ''export const buildInfo = {\<newline>'' @
           ''    user: \"Octocat\",\<newline>'' @
           ''    hash: \"1e872b5\",\<newline>'' @
           ''    version: \"1.0.0\",\<newline>'' @
           ''    timestamp: '' @ unquote_keys (json_quote (moment_format e)) @ ''\<newline>'' @
           ''};\<newline>'')] \<and>
     (\<not> quote_colon (moment_format e) \<longrightarrow>
        unquote_keys (json_quote (moment_format e)) = json_quote (moment_format e))"
proof -
  have "list_all (\<lambda>p. plain_key (fst p)) (template e)"
    by (simp add: template_def plain_keys)
  then have "file_text (template e) =
      header @ ''export const buildInfo = '' @ layout (template e) @ '';\<newline>''"
    by (rule file_text_layout)
  moreover have "unquote_keys (json_quote ''Octocat'') = ''\"Octocat\"''"
    and "unquote_keys (json_quote ''1e872b5'') = ''\"1e872b5\"''"
    and "unquote_keys (json_quote ''1.0.0'') = ''\"1.0.0\"''"
    by (simp_all add: json_quote_def escape_char_def in_class_def)
  ultimately have "file_text (template e) =
      header @
      ''export const buildInfo = {\<newline>'' @
      ''    user: \"Octocat\",\<newline>'' @
      ''    hash: \"1e872b5\",\<newline>'' @
      ''    version: \"1.0.0\",\<newline>'' @
      ''    timestamp: '' @ unquote_keys (json_quote (moment_format e)) @ ''\<newline>'' @
      ''};\<newline>''"
    by (simp add: layout_def template_def member_text_def)
  with assms show ?thesis by (simp add: start_def init_def template_def unquote_json_quote)
qed

text \<open>
  At the time \<^verbatim>\<open>November 03, 2026 06:01:00\<close>.
\<close>

theorem init_template_text_witness:
  "''--init'' \<in> set [''--init''] \<and>
   filter is_write
     (fst (start (example_env (Resolved ''Jane\<newline>'' []) (Resolved ''abc1234\<newline>'' []) True)
       [''--init''])) =
   [WriteFile ''/project/src/build.ts''
     (header @
      ''export const buildInfo = {\<newline>'' @
      ''    user: \"Octocat\",\<newline>'' @
      ''    hash: \"1e872b5\",\<newline>'' @
      ''    version: \"1.0.0\",\<newline>'' @
      ''    timestamp: \"November 03, 2026 06:01:00\"\<newline>'' @
      ''};\<newline>'')]"
proof -
  let ?e = "example_env (Resolved ''Jane\<newline>'' []) (Resolved ''abc1234\<newline>'' []) True"
  have h: "''--init'' \<in> set [''--init'']" by simp
  have "unquote_keys (json_quote (moment_format ?e)) = ''\"November 03, 2026 06:01:00\"''"
    by (simp add: example_env_def json_quote_def escape_char_def in_class_def)
  moreover have "exportPath ?e = ''/project/src/build.ts''"
    by (simp add: example_env_def exportPath_def)
  ultimately show ?thesis using init_template_text [OF h, of ?e] by simp
qed

end
